theory Spec2Isabelle
  imports Complex_Main "HOL-Library.Sublist"
begin

section \<open>The admission planner of \<^verbatim>\<open>kabuki/batch_run.py\<close>\<close>

text \<open>
  The planner works on the dictionary that the machine probe returns and on the
  parsed command line. Both are modelled as records with the keys the code reads.
  Python integers are \<open>int\<close>; the quantities that the code turns into floating
  point (\<^verbatim>\<open>cpu_count\<close> after derating, \<^verbatim>\<open>cpu_usage\<close>, the
  GPU \<^verbatim>\<open>utilization\<close> and the request's \<^verbatim>\<open>gpu_utilization\<close>) are
  exact rationals here, so rounding is not modelled.
  The key \<^verbatim>\<open>reserved\<close> does not exist in a probe's output: it is created by
  \<^verbatim>\<open>init_machine_limit\<close>, which overwrites whatever the record holds.
\<close>

record gpu =
  name :: string
  mem :: int
  free :: int
  utilization :: rat
  gpu_reserved :: int

record machine_limit =
  cpu_usage :: rat
  mem_free :: int
  cpu_count :: rat
  gpus :: "gpu list"
  reserved :: int

text \<open>The fields of \<^verbatim>\<open>args\<close> that the planner and the command builder read.\<close>

record args =
  copy_forward :: "string list"
  copy_backwards :: "string list"
  num_cpus :: int
  memory_required :: int
  reserve :: bool
  no_reserve_gpu :: bool
  no_gpu_required :: bool
  gpu_memory_required :: int
  gpu_utilization :: rat
  verbose :: bool
  dry_run :: bool
  kabuki_commands :: bool

text \<open>
  Subscripting \<^verbatim>\<open>None\<close> raises \<^verbatim>\<open>TypeError\<close>: this is what
  \<^verbatim>\<open>subtract_process_req\<close> does when a GPU is required and the machine has none.
\<close>

datatype error = TypeError

subsection \<open>\<^verbatim>\<open>machine_limit_over\<close>\<close>

text \<open>Python's \<^verbatim>\<open>any\<close> over a generator: left to right, stopping at the first hit.\<close>

fun any_gpu :: "(gpu \<Rightarrow> bool) \<Rightarrow> gpu list \<Rightarrow> bool" where
  "any_gpu p [] = False"
| "any_gpu p (g # gs) = (if p g then True else any_gpu p gs)"

definition machine_limit_over :: "machine_limit \<Rightarrow> bool" where
  "machine_limit_over m =
     (reserved m > 1 \<or>
      cpu_count m < - 2 \<or>
      mem_free m < 0 \<or>
      any_gpu (\<lambda>g. free g < 0) (gpus m) \<or>
      any_gpu (\<lambda>g. utilization g > 12 / 10) (gpus m) \<or>
      any_gpu (\<lambda>g. gpu_reserved g > 1) (gpus m))"

subsection \<open>\<^verbatim>\<open>subtract_process_req\<close>\<close>

text \<open>
  The loop over \<^verbatim>\<open>enumerate(machine_limit['gpus'])\<close>. Its state is the pair of
  \<^verbatim>\<open>gpu_choice\<close> (a dictionary of the list, or \<^verbatim>\<open>None\<close>) and
  \<^verbatim>\<open>gpu_idx\<close>; the first argument is the index of the head of the remaining list.
  A nonzero \<^verbatim>\<open>reserved\<close> count is truthy.
\<close>

fun gpu_scan :: "args \<Rightarrow> nat \<Rightarrow> gpu list \<Rightarrow> gpu option \<times> nat \<Rightarrow> gpu option \<times> nat" where
  "gpu_scan a i [] st = st"
| "gpu_scan a i (g # gs) (gpu_choice, gpu_idx) =
     (if (case gpu_choice of
            None \<Rightarrow> True
          | Some c \<Rightarrow> gpu_reserved c \<noteq> 0 \<or> free c - gpu_memory_required a \<le> 0 \<or>
                     utilization c > utilization g)
      then gpu_scan a (Suc i) gs (Some g, i)
      else gpu_scan a (Suc i) gs (gpu_choice, gpu_idx))"

text \<open>
  The three updates of the chosen dictionary. The dictionary is the element of the list
  at \<^verbatim>\<open>gpu_idx\<close>, so the in-place update is a list update at that index.

  The source adds the utilization in double precision; the sum here is exact. The two
  differ where a sum of doubles lands beside the threshold: three charges of 0.4 make
  1.2000000000000002 in doubles, which is above 1.2, and exactly \<open>12 / 10\<close> here,
  which is not. The same holds for the derated \<^verbatim>\<open>cpu_count\<close>.
\<close>

definition charge_gpu :: "args \<Rightarrow> gpu \<Rightarrow> gpu" where
  "charge_gpu a c =
     (let c1 = c\<lparr>free := free c - gpu_memory_required a\<rparr>;
          c2 = c1\<lparr>utilization := utilization c1 + gpu_utilization a\<rparr>
      in if \<not> no_reserve_gpu a then c2\<lparr>gpu_reserved := gpu_reserved c2 + 1\<rparr> else c2)"

definition subtract_process_req :: "machine_limit \<Rightarrow> args \<Rightarrow> error + machine_limit \<times> nat" where
  "subtract_process_req m a =
     (let m1 = (if reserve a then m\<lparr>reserved := reserved m + 1\<rparr> else m);
          m2 = m1\<lparr>cpu_count := cpu_count m1 - of_int (num_cpus a)\<rparr>;
          m3 = m2\<lparr>mem_free := mem_free m2 - memory_required a\<rparr>
      in if \<not> no_gpu_required a then
           (case gpu_scan a 0 (gpus m3) (None, 0) of
              (None, gpu_idx) \<Rightarrow> Inl TypeError
            | (Some gpu_choice, gpu_idx) \<Rightarrow>
                Inr (m3\<lparr>gpus := (gpus m3)[gpu_idx := charge_gpu a gpu_choice]\<rparr>, gpu_idx))
         else Inr (m3, 0))"

subsection \<open>\<^verbatim>\<open>init_machine_limit\<close> and \<^verbatim>\<open>get_process_limit\<close>\<close>

definition init_machine_limit :: "machine_limit \<Rightarrow> machine_limit" where
  "init_machine_limit m =
     (let m1 = m\<lparr>reserved := 0\<rparr>;
          m2 = m1\<lparr>cpu_count := cpu_count m1 * (1 - cpu_usage m1)\<rparr>
      in m2\<lparr>gpus := map (\<lambda>g. g\<lparr>gpu_reserved := 0\<rparr>) (gpus m2)\<rparr>)"

text \<open>
  The \<^verbatim>\<open>while True\<close> loop. It has no bound, so it is a partial function: the value
  \<open>None\<close> stands for a loop that never reaches its \<^verbatim>\<open>break\<close>, and an
  exception of the body ends it with \<open>Some (Inl e)\<close>.
\<close>

partial_function (option) process_loop ::
  "machine_limit \<Rightarrow> args \<Rightarrow> nat list \<Rightarrow> (error + nat list) option" where
  "process_loop m a gpu_choices =
     (case subtract_process_req m a of
        Inl e \<Rightarrow> Some (Inl e)
      | Inr (m', gpu_choice) \<Rightarrow>
          if machine_limit_over m' then Some (Inr gpu_choices)
          else process_loop m' a (gpu_choices @ [gpu_choice]))"

text \<open>
  The deep copy makes the planner work on a value of its own; in a pure model this is
  the argument itself.
\<close>

definition get_process_limit :: "machine_limit \<Rightarrow> args \<Rightarrow> (error + nat list) option" where
  "get_process_limit machine_limit a =
     (if gpus machine_limit = [] \<and> \<not> no_gpu_required a then Some (Inr [])
      else process_loop (init_machine_limit machine_limit) a [])"

declare process_loop.simps [code]

subsection \<open>The selection and the loop, as the specification words them\<close>

text \<open>
  The replacement test of the scan on indices: the candidate at index \<open>i\<close> replaces
  the current best when there is none, when the best has a nonzero reserved count, when
  the best's free memory less the requested GPU memory is at or below zero, or when the
  best's utilization is strictly higher than the candidate's.
\<close>

definition replaces :: "args \<Rightarrow> gpu list \<Rightarrow> nat option \<Rightarrow> nat \<Rightarrow> bool" where
  "replaces a gs best i =
     (case best of
        None \<Rightarrow> True
      | Some b \<Rightarrow> gpu_reserved (gs ! b) \<noteq> 0 \<or> free (gs ! b) - gpu_memory_required a \<le> 0 \<or>
                 utilization (gs ! b) > utilization (gs ! i))"

text \<open>The scan as one left-to-right fold over the indices of the sequence.\<close>

definition improving_scan :: "args \<Rightarrow> gpu list \<Rightarrow> nat option" where
  "improving_scan a gs =
     foldl (\<lambda>best i. if replaces a gs best i then Some i else best) None [0..<length gs]"


text \<open>
  The state after \<open>k\<close> calls of \<^verbatim>\<open>subtract_process_req\<close>, with the indices they
  returned, whatever \<^verbatim>\<open>machine_limit_over\<close> says of the states on the way.
\<close>

fun charge_n :: "nat \<Rightarrow> machine_limit \<Rightarrow> args \<Rightarrow> error + machine_limit \<times> nat list" where
  "charge_n 0 m a = Inr (m, [])"
| "charge_n (Suc k) m a =
     (case charge_n k m a of
        Inl e \<Rightarrow> Inl e
      | Inr (mk, cs) \<Rightarrow>
          (case subtract_process_req mk a of
             Inl e \<Rightarrow> Inl e
           | Inr (m', c) \<Rightarrow> Inr (m', cs @ [c])))"

text \<open>None of the states after the calls \<open>1\<close> to \<open>k\<close> is over capacity.\<close>

fun none_over :: "nat \<Rightarrow> machine_limit \<Rightarrow> args \<Rightarrow> bool" where
  "none_over 0 m a = True"
| "none_over (Suc k) m a =
     (none_over k m a \<and>
      (case charge_n (Suc k) m a of Inl e \<Rightarrow> False | Inr (m', cs) \<Rightarrow> \<not> machine_limit_over m'))"



definition alternating :: "nat list \<Rightarrow> bool" where
  "alternating xs = (xs = map (\<lambda>i. i mod 2) [0..<length xs])"

subsection \<open>Notions for the comparison of two GPU memory demands\<close>







subsection \<open>Concrete machines and requests\<close>

text \<open>The defaults of the argument parser.\<close>

definition default_args :: args where
  "default_args = \<lparr>copy_forward = [], copy_backwards = [], num_cpus = 1, memory_required = 7000,
     reserve = False, no_reserve_gpu = False, no_gpu_required = False,
     gpu_memory_required = 1000, gpu_utilization = 75 / 100, verbose = False, dry_run = False,
     kabuki_commands = False\<rparr>"

definition rtx_2060 :: "int \<Rightarrow> int \<Rightarrow> rat \<Rightarrow> gpu" where
  "rtx_2060 tot fr u =
     \<lparr>name = ''GeForce RTX 2060'', mem = tot, free = fr, utilization = u, gpu_reserved = 0\<rparr>"

text \<open>The machine of the docstring of \<^verbatim>\<open>get_process_limit\<close>.\<close>

definition docstring_machine :: machine_limit where
  "docstring_machine = \<lparr>cpu_usage = 124 / 1000, mem_free = 30607, cpu_count = 24,
     gpus = [rtx_2060 5934 5933 0, rtx_2060 5932 5931 0], reserved = 0\<rparr>"

text \<open>The simulated state of the docstring machine after \<open>k\<close> charges of the default request.\<close>

definition docstring_state :: "nat \<Rightarrow> machine_limit" where
  "docstring_state k =
     (case charge_n k (init_machine_limit docstring_machine) default_args of
        Inl e \<Rightarrow> init_machine_limit docstring_machine
      | Inr (m, cs) \<Rightarrow> m)"






text \<open>A machine whose second GPU is reported above the utilization threshold.\<close>

definition hot_second_machine :: machine_limit where
  "hot_second_machine = \<lparr>cpu_usage = 0, mem_free = 100000, cpu_count = 24,
     gpus = [rtx_2060 6000 3 (3 / 4), rtx_2060 6000 4 (5 / 4)], reserved = 0\<rparr>"


section \<open>The command builder\<close>

text \<open>
  Python's \<^verbatim>\<open>sep.join(xs)\<close>, the whitespace of \<^verbatim>\<open>str.split()\<close> and
  \<^verbatim>\<open>str.strip()\<close> (the ASCII part of it), and \<^verbatim>\<open>str(n)\<close> for a natural number.
  The substring test \<^verbatim>\<open>x in s\<close> is \<^const>\<open>sublist\<close>.
\<close>

fun join :: "string \<Rightarrow> string list \<Rightarrow> string" where
  "join sep [] = []"
| "join sep [x] = x"
| "join sep (x # y # ys) = x @ sep @ join sep (y # ys)"

definition is_space :: "char \<Rightarrow> bool" where
  "is_space c = (c \<in> set [CHR '' '', CHR 0x09, CHR 0x0A, CHR 0x0B, CHR 0x0C, CHR 0x0D,
                            CHR 0x1C, CHR 0x1D, CHR 0x1E, CHR 0x1F])"

fun split_ws :: "string \<Rightarrow> string \<Rightarrow> string list" where
  "split_ws cur [] = (if cur = [] then [] else [cur])"
| "split_ws cur (c # cs) =
     (if is_space c then (if cur = [] then split_ws [] cs else cur # split_ws [] cs)
      else split_ws (cur @ [c]) cs)"

definition strip :: "string \<Rightarrow> string" where
  "strip s = rev (dropWhile is_space (rev (dropWhile is_space s)))"

function string_of_nat :: "nat \<Rightarrow> string" where
  "string_of_nat n =
     (if n < 10 then [''0123456789'' ! n]
      else string_of_nat (n div 10) @ [''0123456789'' ! (n mod 10)])"
  by pat_completeness auto
termination
  by (relation "measure id") auto

text \<open>
  \<^verbatim>\<open>make_basic_run_command\<close>. The path \<^verbatim>\<open>os.path.join(my_folder, 'basic_run.py')\<close>
  is the parameter \<open>basic_run_py\<close>. The function reads \<^verbatim>\<open>copy_forward\<close>,
  \<^verbatim>\<open>copy_backwards\<close> and \<^verbatim>\<open>verbose\<close> of whatever namespace it is given.
\<close>

definition make_basic_run_command ::
  "string \<Rightarrow> string \<Rightarrow> string \<Rightarrow> string \<Rightarrow> string \<Rightarrow> nat \<Rightarrow> 'z args_scheme \<Rightarrow> string list" where
  "make_basic_run_command basic_run_py machine job_name export_prefix command gpu_choice a =
     (let basic_cmd = split_ws []
            (''python -u '' @ basic_run_py @ '' --copy-forward '' @ join '' '' (copy_forward a) @
             ''  --copy-backwards '' @ join '' '' (copy_backwards a) @
             '' --machine='' @ machine @ '' --job-name='' @ job_name @ '' '' @
             (if verbose a then ''--verbose'' else []));
          cmd = basic_cmd @ [export_prefix @ '' '' @ command]
      in cmd)"

text \<open>
  The text that \<^verbatim>\<open>make_kabuki_run_command\<close> builds before it parses it: the five
  statements on \<^verbatim>\<open>final_command\<close>, in the order of the source.
\<close>

definition kabuki_final_command :: "string \<Rightarrow> string \<Rightarrow> string \<Rightarrow> 'z args_scheme \<Rightarrow> string" where
  "kabuki_final_command machine job_name command a =
     (let final_command = command;
          final_command =
            (if \<not> sublist ''--copy-forward'' command
             then final_command @ '' --copy-forward '' @ join '' '' (copy_forward a) @ '' ''
             else final_command);
          final_command =
            (if \<not> sublist ''--copy-backwards'' command
             then final_command @ '' --copy-backwards '' @ join '' '' (copy_backwards a) @ '' ''
             else final_command);
          final_command =
            (if \<not> sublist ''--job-name'' command
             then final_command @ '' --job-name '' @ job_name @ '' ''
             else final_command);
          final_command =
            (if verbose a then final_command @ '' --verbose '' else final_command);
          final_command = final_command @ '' --machine '' @ machine @ '' ''
      in final_command)"

text \<open>
  What \<^verbatim>\<open>basic_run.parse_args\<close> returns: a namespace with the fields that
  \<^verbatim>\<open>make_basic_run_command\<close> reads, the job name and the command.
  \<^verbatim>\<open>shlex.split\<close> and \<^verbatim>\<open>basic_run.parse_args\<close> are not part of this file;
  they are parameters.
\<close>

record parsed = args +
  parsed_job_name :: string
  parsed_command :: string

definition make_kabuki_run_command ::
  "(string \<Rightarrow> string list) \<Rightarrow> (string list \<Rightarrow> parsed) \<Rightarrow> string \<Rightarrow>
   string \<Rightarrow> string \<Rightarrow> string \<Rightarrow> string \<Rightarrow> nat \<Rightarrow> 'z args_scheme \<Rightarrow> string list \<times> string" where
  "make_kabuki_run_command shlex_split parse_args basic_run_py
       machine job_name export_prefix command gpu_choice a =
     (let final_command = kabuki_final_command machine job_name command a;
          split_cmd = tl (shlex_split final_command);
          parse_results = parse_args split_cmd;
          resulting_command =
            make_basic_run_command basic_run_py machine (parsed_job_name parse_results)
              export_prefix (parsed_command parse_results) gpu_choice parse_results
      in (resulting_command, parsed_job_name parse_results))"

section \<open>The scheduling loop of \<^verbatim>\<open>main\<close>\<close>

text \<open>
  A child process is known by its handle, the number of its \<^verbatim>\<open>Popen\<close> call. A slot
  is \<^verbatim>\<open>None\<close> or the pair of a line number and a handle.

  The world outside is a record of functions: the two parsers and the script path of
  the command builder, \<^verbatim>\<open>os.path.exists\<close> and \<^verbatim>\<open>Popen.poll\<close>. The last two
  change with time, so they take the number of slot visits made so far.
\<close>

type_synonym proc = nat

type_synonym slot = "(nat \<times> proc) option"

record env =
  shlex_split :: "string \<Rightarrow> string list"
  parse_args :: "string list \<Rightarrow> parsed"
  basic_run_py :: string
  path_exists :: "nat \<Rightarrow> string \<Rightarrow> bool"
  poll :: "nat \<Rightarrow> proc \<Rightarrow> int option"

text \<open>
  What the loop does to the outside: the lines it prints for a reaped job and for a
  skipped one, and the commands it starts.
\<close>

datatype event =
    Finished string string
  | Failed string string
  | Skipping string
  | Started string "string list"

fun is_started :: "event \<Rightarrow> bool" where
  "is_started (Started job_name job_cmd) = True"
| "is_started e = False"

record sched =
  line_num :: nat
  job_names :: "string list"
  machine_procs :: "slot list list"
  all_done :: bool
  waiting_only :: bool
  log :: "event list"
  ticks :: nat

definition set_slot :: "nat \<Rightarrow> nat \<Rightarrow> slot \<Rightarrow> slot list list \<Rightarrow> slot list list" where
  "set_slot mi i v mp = mp[mi := (mp ! mi)[i := v]]"

text \<open>Lines 168 to 173: a slot whose process has exited is reported and emptied.\<close>

definition reap :: "env \<Rightarrow> string list \<Rightarrow> nat \<Rightarrow> nat \<Rightarrow> sched \<Rightarrow> sched" where
  "reap E lines mi i st =
     (case machine_procs st ! mi ! i of
        None \<Rightarrow> st
      | Some (finished_num, p) \<Rightarrow>
          (case poll E (ticks st) p of
             None \<Rightarrow> st
           | Some returncode \<Rightarrow>
               st\<lparr>log := log st @
                     [(if returncode = 0 then Finished else Failed)
                        (job_names st ! finished_num) (strip (lines ! finished_num))],
                  machine_procs := set_slot mi i None (machine_procs st)\<rparr>))"

definition export_prefix_of :: "'z args_scheme \<Rightarrow> nat \<Rightarrow> string" where
  "export_prefix_of a gpu_choice =
     (if \<not> reserve a \<and> \<not> no_gpu_required a
      then ''export CUDA_VISIBLE_DEVICES='' @ string_of_nat gpu_choice @ '' &&''
      else [])"

text \<open>The path of the completion marker of a job name: \<^verbatim>\<open>f"./job_results/{job_name}"\<close>.\<close>

definition marker_path :: "string \<Rightarrow> string" where
  "marker_path job_name = ''./job_results/'' @ job_name"

text \<open>
  Lines 174 to 200: an empty slot takes the next line. The job name is the one the
  command builder returns; a marker under that name skips the line, and otherwise,
  unless this is a dry run, the command is started and the slot filled.
\<close>

definition dispatch ::
  "env \<Rightarrow> args \<Rightarrow> string list \<Rightarrow> string \<Rightarrow> nat \<Rightarrow> nat \<Rightarrow> nat \<Rightarrow> sched \<Rightarrow> sched" where
  "dispatch E a lines mac gpu_choice mi i st =
     (if machine_procs st ! mi ! i = None \<and> line_num st < length lines then
        (let export_prefix = export_prefix_of a gpu_choice;
             command = strip (lines ! line_num st);
             job_name = job_names st ! line_num st;
             (job_cmd, job_name) =
               (if kabuki_commands a
                then make_kabuki_run_command (shlex_split E) (parse_args E) (basic_run_py E)
                       mac job_name export_prefix command gpu_choice a
                else (make_basic_run_command (basic_run_py E)
                        mac job_name export_prefix command gpu_choice a, job_name));
             st1 = (if kabuki_commands a
                    then st\<lparr>job_names := (job_names st)[line_num st := job_name]\<rparr> else st);
             st2 = (if path_exists E (ticks st) (marker_path job_name)
                    then st1\<lparr>log := log st1 @ [Skipping command]\<rparr>
                    else if \<not> dry_run a
                    then st1\<lparr>log := log st1 @ [Started job_name job_cmd],
                            machine_procs :=
                              set_slot mi i
                                (Some (line_num st1, length (filter is_started (log st1))))
                                (machine_procs st1)\<rparr>
                    else st1)
         in st2\<lparr>line_num := line_num st2 + 1, all_done := False, waiting_only := False\<rparr>)
      else st)"

text \<open>The body of the inner \<^verbatim>\<open>for\<close> loop, lines 168 to 203.\<close>

definition visit_slot ::
  "env \<Rightarrow> args \<Rightarrow> string list \<Rightarrow> string \<Rightarrow> nat \<Rightarrow> nat \<Rightarrow> nat \<Rightarrow> sched \<Rightarrow> sched" where
  "visit_slot E a lines mac gpu_choice mi i st =
     (let st1 = reap E lines mi i st;
          st2 = dispatch E a lines mac gpu_choice mi i st1;
          st3 = (if machine_procs st2 ! mi ! i \<noteq> None then st2\<lparr>all_done := False\<rparr> else st2)
      in st3\<lparr>ticks := ticks st3 + 1\<rparr>)"

text \<open>
  One pass of the two nested \<^verbatim>\<open>for\<close> loops over the zipped sequences; a zip is as
  long as its shortest argument.
\<close>

definition sched_pass ::
  "env \<Rightarrow> args \<Rightarrow> string list \<Rightarrow> string list \<Rightarrow> nat list list \<Rightarrow> sched \<Rightarrow> sched" where
  "sched_pass E a lines machines machine_gpu_choices st =
     fold (\<lambda>mi st.
        fold (\<lambda>i st. visit_slot E a lines (machines ! mi) (machine_gpu_choices ! mi ! i) mi i st)
          [0..<min (length (machine_gpu_choices ! mi)) (length (machine_procs st ! mi))] st)
       [0..<min (length machines) (min (length machine_gpu_choices) (length (machine_procs st)))]
       st"

text \<open>
  The \<^verbatim>\<open>while not all_done\<close> loop. It runs as long as some slot is occupied, so it
  is a partial function; the sleep between passes changes nothing.
\<close>

partial_function (option) sched_loop ::
  "env \<Rightarrow> args \<Rightarrow> string list \<Rightarrow> string list \<Rightarrow> nat list list \<Rightarrow> sched \<Rightarrow> sched option" where
  "sched_loop E a lines machines machine_gpu_choices st =
     (if all_done st then Some st
      else sched_loop E a lines machines machine_gpu_choices
             (sched_pass E a lines machines machine_gpu_choices
                (st\<lparr>all_done := True, waiting_only := True\<rparr>)))"

declare sched_loop.simps [code]

text \<open>The state that \<^verbatim>\<open>main\<close> sets up before the loop.\<close>

definition init_job_names :: "string \<Rightarrow> string list \<Rightarrow> string list" where
  "init_job_names filename lines =
     (let save_filename = map (\<lambda>c. if c = CHR ''/'' then CHR ''_'' else c) filename
      in map (\<lambda>line_num. save_filename @ ''.'' @ string_of_nat (line_num + 1)) [0..<length lines])"

definition init_sched :: "string \<Rightarrow> string list \<Rightarrow> nat list list \<Rightarrow> sched" where
  "init_sched filename lines machine_gpu_choices =
     \<lparr>line_num = 0,
      job_names = init_job_names filename lines,
      machine_procs = map (\<lambda>c. replicate (length c) None) machine_gpu_choices,
      all_done = False, waiting_only = True, log = [], ticks = 0\<rparr>"

definition run_schedule ::
  "env \<Rightarrow> args \<Rightarrow> string \<Rightarrow> string list \<Rightarrow> string list \<Rightarrow> nat list list \<Rightarrow> sched option" where
  "run_schedule E a filename lines machines machine_gpu_choices =
     sched_loop E a lines machines machine_gpu_choices
       (init_sched filename lines machine_gpu_choices)"

subsection \<open>The handler of an exception that leaves the loop\<close>

text \<open>
  The processes outside: whether this program ignores \<^verbatim>\<open>SIGINT\<close>, the handles that
  were sent \<^verbatim>\<open>SIGINT\<close>, in order, and the handles still running.
  \<^verbatim>\<open>Popen.wait\<close> returns once the process has exited, and never if it never does:
  \<open>exits p\<close> says whether the process \<open>p\<close> exits at some time.
\<close>

record world =
  sigint_ignored :: bool
  signalled :: "proc list"
  running :: "proc list"

definition send_signal :: "proc \<Rightarrow> world \<Rightarrow> world" where
  "send_signal p w = w\<lparr>signalled := signalled w @ [p]\<rparr>"

definition wait_proc :: "(proc \<Rightarrow> bool) \<Rightarrow> proc \<Rightarrow> world \<Rightarrow> world option" where
  "wait_proc exits p w =
     (if p \<in> set (running w) \<and> \<not> exits p then None
      else Some (w\<lparr>running := removeAll p (running w)\<rparr>))"

fun signal_procs :: "slot list \<Rightarrow> world \<Rightarrow> world" where
  "signal_procs [] w = w"
| "signal_procs (None # procs) w = signal_procs procs w"
| "signal_procs (Some (n, p) # procs) w = signal_procs procs (send_signal p w)"

fun signal_machines :: "slot list list \<Rightarrow> world \<Rightarrow> world" where
  "signal_machines [] w = w"
| "signal_machines (procs # rest) w = signal_machines rest (signal_procs procs w)"

fun wait_procs :: "(proc \<Rightarrow> bool) \<Rightarrow> slot list \<Rightarrow> world \<Rightarrow> world option" where
  "wait_procs exits [] w = Some w"
| "wait_procs exits (None # procs) w = wait_procs exits procs w"
| "wait_procs exits (Some (n, p) # procs) w =
     (case wait_proc exits p w of None \<Rightarrow> None | Some w' \<Rightarrow> wait_procs exits procs w')"

fun wait_machines :: "(proc \<Rightarrow> bool) \<Rightarrow> slot list list \<Rightarrow> world \<Rightarrow> world option" where
  "wait_machines exits [] w = Some w"
| "wait_machines exits (procs # rest) w =
     (case wait_procs exits procs w of None \<Rightarrow> None | Some w' \<Rightarrow> wait_machines exits rest w')"

text \<open>
  Lines 206 to 218. The handler ends by raising the exception it caught, so what it
  yields, if it ends, is the world it leaves and that exception.
\<close>

definition drain_handler ::
  "(proc \<Rightarrow> bool) \<Rightarrow> slot list list \<Rightarrow> 'e \<Rightarrow> world \<Rightarrow> (world \<times> 'e) option" where
  "drain_handler exits mp be w =
     (let w1 = w\<lparr>sigint_ignored := True\<rparr>;
          w2 = signal_machines mp w1
      in case wait_machines exits mp w2 of
           None \<Rightarrow> None
         | Some w3 \<Rightarrow> Some (w3, be))"

text \<open>The handles in the slots.\<close>

fun procs_of :: "slot list \<Rightarrow> proc list" where
  "procs_of [] = []"
| "procs_of (None # procs) = procs_of procs"
| "procs_of (Some (n, p) # procs) = p # procs_of procs"

definition slot_procs :: "slot list list \<Rightarrow> proc list" where
  "slot_procs mp = concat (map procs_of mp)"

text \<open>Some process of the list is running and never exits.\<close>

definition stuck :: "(proc \<Rightarrow> bool) \<Rightarrow> proc list \<Rightarrow> world \<Rightarrow> bool" where
  "stuck exits ps w = (\<exists>p\<in>set ps. p \<in> set (running w) \<and> \<not> exits p)"

text \<open>The name under which a line's marker is looked up.\<close>

definition effective_name :: "env \<Rightarrow> args \<Rightarrow> string \<Rightarrow> nat \<Rightarrow> string \<Rightarrow> string \<Rightarrow> string" where
  "effective_name E a mac gpu_choice job_name command =
     (if kabuki_commands a
      then snd (make_kabuki_run_command (shlex_split E) (parse_args E) (basic_run_py E)
                  mac job_name (export_prefix_of a gpu_choice) command gpu_choice a)
      else job_name)"

subsection \<open>Notions for the run in which every marker exists\<close>

text \<open>
  The states of such a run: the slots are those of the start, all empty; nothing was
  started; and the names of the lines not yet reached are those of the start.
\<close>

definition idle :: "string list \<Rightarrow> string list \<Rightarrow> slot list list \<Rightarrow> sched \<Rightarrow> bool" where
  "idle lines names mp st =
     (machine_procs st = mp \<and> list_all (list_all (\<lambda>s. s = None)) mp \<and>
      line_num st \<le> length lines \<and>
      filter is_started (log st) = [] \<and> length (job_names st) = length lines \<and>
      length names = length lines \<and>
      (\<forall>k. line_num st \<le> k \<and> k < length lines \<longrightarrow> job_names st ! k = names ! k))"

text \<open>
  A piece of a pass that visits \<open>w\<close> slots of such a state: it keeps the state idle,
  moves \<^verbatim>\<open>line_num\<close> on by \<open>w\<close> lines or to the end of the lines, and leaves
  \<^verbatim>\<open>all_done\<close> set only if it had no line to take.
\<close>

definition skips ::
  "string list \<Rightarrow> string list \<Rightarrow> slot list list \<Rightarrow> nat \<Rightarrow> (sched \<Rightarrow> sched) \<Rightarrow> bool" where
  "skips lines names mp w g =
     (\<forall>st. idle lines names mp st \<longrightarrow>
        idle lines names mp (g st) \<and>
        line_num (g st) = min (length lines) (line_num st + w) \<and>
        all_done (g st) = (all_done st \<and> (w = 0 \<or> length lines \<le> line_num st)))"

text \<open>The number of slots that one pass visits.\<close>

definition n_slots :: "string list \<Rightarrow> nat list list \<Rightarrow> slot list list \<Rightarrow> nat" where
  "n_slots machines machine_gpu_choices mp =
     sum_list (map (\<lambda>mi. min (length (machine_gpu_choices ! mi)) (length (mp ! mi)))
       [0..<min (length machines) (min (length machine_gpu_choices) (length mp))])"

subsection \<open>Concrete jobs and worlds\<close>

definition verbose_args :: args where
  "verbose_args = default_args\<lparr>verbose := True\<rparr>"

text \<open>A line of a batch file in self-invocation mode that names its machine itself.\<close>

definition nested_job :: string where
  "nested_job = ''basic_run.py --machine m1 --verbose echo hi''"

text \<open>A batch file of two lines, as \<^verbatim>\<open>readlines\<close> returns them.\<close>

definition two_lines :: "string list" where
  "two_lines = [''echo a
'', ''echo b
'']"

text \<open>A world in which every path exists and no process has exited yet.\<close>

definition all_marked :: env where
  "all_marked =
     \<lparr>shlex_split = (\<lambda>s. []),
      parse_args = (\<lambda>xs. args.extend default_args
                       (parsed.fields [] [])),
      basic_run_py = ''basic_run.py'',
      path_exists = (\<lambda>t p. True),
      poll = (\<lambda>t p. None)\<rparr>"

text \<open>Two machines with three slots, two of them occupied, and three running processes.\<close>

definition two_busy_slots :: "slot list list" where
  "two_busy_slots = [[Some (0, 0), None], [Some (1, 1)]]"

definition three_running :: world where
  "three_running = \<lparr>sigint_ignored = False, signalled = [], running = [0, 1, 5]\<rparr>"

definition drained :: world where
  "drained = \<lparr>sigint_ignored = True, signalled = [0, 1], running = [5]\<rparr>"

section \<open>Properties of the admission planner\<close>

subsection \<open>The over-capacity test\<close>

lemma any_gpu_iff: "any_gpu p gs \<longleftrightarrow> (\<exists>g\<in>set gs. p g)"
  by (induction gs) auto

lemma machine_limit_over_iff:
  "machine_limit_over m \<longleftrightarrow>
     reserved m > 1 \<or> cpu_count m < - 2 \<or> mem_free m < 0 \<or>
     (\<exists>g\<in>set (gpus m). free g < 0) \<or>
     (\<exists>g\<in>set (gpus m). utilization g > 12 / 10) \<or>
     (\<exists>g\<in>set (gpus m). gpu_reserved g > 1)"
  by (simp add: machine_limit_over_def any_gpu_iff)

subsection \<open>The scan of \<^verbatim>\<open>subtract_process_req\<close> is the fold on indices\<close>

lemma gpu_scan_fold:
  assumes "\<And>b. best = Some b \<Longrightarrow> b < length pre"
  shows "gpu_scan a (length pre) gs (map_option ((!) (pre @ gs)) best, case_option 0 id best) =
     (let r = foldl (\<lambda>best i. if replaces a (pre @ gs) best i then Some i else best) best
                [length pre..<length pre + length gs]
      in (map_option ((!) (pre @ gs)) r, case_option 0 id r))"
  using assms
proof (induction gs arbitrary: pre best)
  case Nil
  then show ?case by simp
next
  case (Cons g gs)
  let ?all = "pre @ g # gs"
  have upt: "[length pre..<length pre + length (g # gs)] =
      length pre # [length (pre @ [g])..<length (pre @ [g]) + length gs]"
    by (subst upt_rec) simp
  have cond: "(case map_option ((!) ?all) best of
            None \<Rightarrow> True
          | Some c \<Rightarrow> gpu_reserved c \<noteq> 0 \<or> free c - gpu_memory_required a \<le> 0 \<or>
                     utilization c > utilization g) = replaces a ?all best (length pre)"
    by (cases best) (simp_all add: replaces_def)
  show ?case
  proof (cases "replaces a ?all best (length pre)")
    case True
    have "gpu_scan a (length pre) (g # gs) (map_option ((!) ?all) best, case_option 0 id best)
        = gpu_scan a (length (pre @ [g])) gs
            (map_option ((!) ((pre @ [g]) @ gs)) (Some (length pre)),
             case_option 0 id (Some (length pre)))"
      using True cond by simp
    also have "\<dots> =
      (let r = foldl (\<lambda>best i. if replaces a ((pre @ [g]) @ gs) best i then Some i else best)
                 (Some (length pre)) [length (pre @ [g])..<length (pre @ [g]) + length gs]
       in (map_option ((!) ((pre @ [g]) @ gs)) r, case_option 0 id r))"
      by (rule Cons.IH) simp
    finally show ?thesis using True unfolding upt by simp
  next
    case False
    have "gpu_scan a (length pre) (g # gs) (map_option ((!) ?all) best, case_option 0 id best)
        = gpu_scan a (length (pre @ [g])) gs
            (map_option ((!) ((pre @ [g]) @ gs)) best, case_option 0 id best)"
      using False cond by simp
    also have "\<dots> =
      (let r = foldl (\<lambda>best i. if replaces a ((pre @ [g]) @ gs) best i then Some i else best)
                 best [length (pre @ [g])..<length (pre @ [g]) + length gs]
       in (map_option ((!) ((pre @ [g]) @ gs)) r, case_option 0 id r))"
      using Cons.prems by (intro Cons.IH) (auto simp: less_Suc_eq)
    finally show ?thesis using False unfolding upt by simp
  qed
qed

lemma gpu_scan_improving:
  "gpu_scan a 0 gs (None, 0) =
     (map_option ((!) gs) (improving_scan a gs), case_option 0 id (improving_scan a gs))"
  using gpu_scan_fold [of None "[]" a gs] by (simp add: improving_scan_def Let_def)

lemma fold_scan_range:
  "(\<And>b. best = Some b \<Longrightarrow> b < i) \<Longrightarrow> i \<le> n \<Longrightarrow>
   foldl (\<lambda>best i. if replaces a gs best i then Some i else best) best [i..<n] = Some j \<Longrightarrow> j < n"
proof (induction "n - i" arbitrary: i best)
  case 0
  then show ?case by auto
next
  case (Suc k)
  then have lt: "i < n" by simp
  then have upt: "[i..<n] = i # [Suc i..<n]" by (simp add: upt_conv_Cons)
  show ?case
  proof (rule Suc.hyps(1) [of "Suc i" "if replaces a gs best i then Some i else best"])
    show "k = n - Suc i" using Suc.hyps(2) by simp
    show "\<And>b. (if replaces a gs best i then Some i else best) = Some b \<Longrightarrow> b < Suc i"
      using Suc.prems(1) by (auto split: if_splits simp: less_Suc_eq)
    show "Suc i \<le> n" using lt by simp
    show "foldl (\<lambda>best i. if replaces a gs best i then Some i else best)
     (if replaces a gs best i then Some i else best) [Suc i..<n] = Some j"
      using Suc.prems(3) unfolding upt by simp
  qed
qed

lemma fold_scan_Some:
  "best \<noteq> None \<Longrightarrow>
   foldl (\<lambda>best i. if replaces a gs best i then Some i else best) best xs \<noteq> None"
  by (induction xs arbitrary: best) auto

lemma improving_scan_nonempty:
  assumes "gs \<noteq> []"
  shows "\<exists>j. improving_scan a gs = Some j \<and> j < length gs"
proof -
  from assms have upt: "[0..<length gs] = 0 # [Suc 0..<length gs]"
    by (simp add: upt_conv_Cons)
  have "improving_scan a gs \<noteq> None"
    unfolding improving_scan_def upt using fold_scan_Some [of "Some 0"]
    by (simp add: replaces_def)
  then obtain j where j: "improving_scan a gs = Some j" by auto
  then have "j < length gs"
    unfolding improving_scan_def using fold_scan_range [of None 0 "length gs" a gs j] by simp
  with j show ?thesis by simp
qed

subsection \<open>One call of \<^verbatim>\<open>subtract_process_req\<close>\<close>

lemma subtract_no_gpu:
  "no_gpu_required a \<Longrightarrow> subtract_process_req m a =
     Inr ((if reserve a then m\<lparr>reserved := reserved m + 1\<rparr> else m)
            \<lparr>cpu_count := cpu_count m - of_int (num_cpus a),
             mem_free := mem_free m - memory_required a\<rparr>, 0)"
  by (simp add: subtract_process_req_def Let_def)

lemma subtract_gpu:
  assumes "\<not> no_gpu_required a" "improving_scan a (gpus m) = Some j"
  shows "subtract_process_req m a =
     Inr ((if reserve a then m\<lparr>reserved := reserved m + 1\<rparr> else m)
            \<lparr>cpu_count := cpu_count m - of_int (num_cpus a),
             mem_free := mem_free m - memory_required a,
             gpus := (gpus m)[j := charge_gpu a (gpus m ! j)]\<rparr>, j)"
  using assms by (simp add: subtract_process_req_def Let_def gpu_scan_improving)

lemma subtract_total:
  assumes "gpus m \<noteq> [] \<or> no_gpu_required a"
  shows "\<exists>m' c. subtract_process_req m a = Inr (m', c) \<and>
           reserved m' = (if reserve a then reserved m + 1 else reserved m) \<and>
           length (gpus m') = length (gpus m)"
proof (cases "no_gpu_required a")
  case True
  then show ?thesis by (simp add: subtract_no_gpu)
next
  case False
  with assms have ne: "gpus m \<noteq> []" by simp
  from improving_scan_nonempty [OF ne] obtain j where "improving_scan a (gpus m) = Some j"
    by blast
  from subtract_gpu [OF False this] show ?thesis by simp
qed

subsection \<open>Unfolding the loop\<close>

lemma process_loop_stop:
  "subtract_process_req m a = Inr (m', c) \<Longrightarrow> machine_limit_over m' \<Longrightarrow>
   process_loop m a acc = Some (Inr acc)"
  by (subst process_loop.simps) simp

lemma process_loop_charges:
  "charge_n k m a = Inr (mk, cs) \<Longrightarrow> none_over k m a \<Longrightarrow>
   process_loop m a acc = process_loop mk a (acc @ cs)"
proof (induction k arbitrary: mk cs)
  case 0
  then show ?case by simp
next
  case (Suc k)
  from Suc.prems(1) obtain m' cs' c where
    k: "charge_n k m a = Inr (m', cs')" and
    s: "subtract_process_req m' a = Inr (mk, c)" and cs: "cs = cs' @ [c]"
    by (auto split: sum.splits)
  from Suc.prems(2) have no: "none_over k m a" and nov: "\<not> machine_limit_over mk"
    using Suc.prems(1) by simp_all
  have "process_loop m a acc = process_loop m' a (acc @ cs')"
    using Suc.IH [OF k no] .
  also have "\<dots> = process_loop mk a (acc @ cs)"
    by (subst process_loop.simps) (simp add: s nov cs)
  finally show ?case .
qed

subsection \<open>The docstring example\<close>

text \<open>
  Claim C1. For the machine of the docstring and the default request (one CPU, 7000 of
  memory, 1000 of GPU memory, GPU utilization 0.75, a GPU required, no reservation of
  the machine, the GPU reservation at its default) \<^verbatim>\<open>get_process_limit\<close> returns
  more than one assignment, and the GPU indices alternate 0, 1 from 0.
\<close>

theorem docstring_example:
  "\<exists>xs. get_process_limit docstring_machine default_args = Some (Inr xs) \<and>
        1 < length xs \<and> alternating xs"
proof -
  have "get_process_limit docstring_machine default_args = Some (Inr [0, 1])"
    by code_simp
  moreover have "alternating [0, 1]" by code_simp
  ultimately show ?thesis by simp
qed

subsection \<open>The GPU selection\<close>

text \<open>
  Claim C2. When a GPU is required and the machine has GPUs, the index that
  \<^verbatim>\<open>subtract_process_req\<close> returns is the result of the single left-to-right scan
  with the replacement test \<open>replaces\<close>, and the call charges exactly that GPU: its free
  memory goes down by the requested GPU memory, its utilization up by the requested
  utilization, and every other GPU is left as it was.
\<close>

theorem scan_charge:
  assumes "\<not> no_gpu_required a" and "gpus m \<noteq> []"
  shows "\<exists>j m'. improving_scan a (gpus m) = Some j \<and> j < length (gpus m) \<and>
           subtract_process_req m a = Inr (m', j) \<and>
           length (gpus m') = length (gpus m) \<and>
           free (gpus m' ! j) = free (gpus m ! j) - gpu_memory_required a \<and>
           utilization (gpus m' ! j) = utilization (gpus m ! j) + gpu_utilization a \<and>
           (\<forall>k < length (gpus m). k \<noteq> j \<longrightarrow> gpus m' ! k = gpus m ! k)"
proof -
  from improving_scan_nonempty [OF assms(2)] obtain j
    where j: "improving_scan a (gpus m) = Some j" "j < length (gpus m)" by blast
  show ?thesis
    using j assms(1) by (auto simp: subtract_gpu charge_gpu_def Let_def)
qed

theorem scan_charge_witness:
  "\<not> no_gpu_required default_args \<and> gpus docstring_machine \<noteq> [] \<and>
   (\<exists>j m'. improving_scan default_args (gpus docstring_machine) = Some j \<and>
      j < length (gpus docstring_machine) \<and>
      subtract_process_req docstring_machine default_args = Inr (m', j) \<and>
      length (gpus m') = length (gpus docstring_machine) \<and>
      free (gpus m' ! j) = free (gpus docstring_machine ! j) - gpu_memory_required default_args \<and>
      utilization (gpus m' ! j) =
        utilization (gpus docstring_machine ! j) + gpu_utilization default_args \<and>
      (\<forall>k < length (gpus docstring_machine). k \<noteq> j \<longrightarrow>
         gpus m' ! k = gpus docstring_machine ! k))"
proof -
  have a: "\<not> no_gpu_required default_args" by (simp add: default_args_def)
  have b: "gpus docstring_machine \<noteq> []" by (simp add: docstring_machine_def)
  from scan_charge [OF a b] a b show ?thesis by blast
qed







subsection \<open>Where the loop stops\<close>

text \<open>
  Claim C3. \<^verbatim>\<open>machine_limit_over\<close> holds exactly when the reserved count exceeds 1,
  or the CPU count is below -2, or the free memory is below 0, or some GPU has free
  memory below 0, or utilization above 1.2, or a reserved count above 1. And if the
  states after the charges 1 to \<open>k\<close> are not over capacity and the state after charge
  \<open>k + 1\<close> is, then \<^verbatim>\<open>get_process_limit\<close> returns the indices of the charges 1 to
  \<open>k\<close>, without the index of charge \<open>k + 1\<close>.
\<close>

theorem over_and_stop:
  assumes "\<not> (gpus s = [] \<and> \<not> no_gpu_required a)"
    and "charge_n k (init_machine_limit s) a = Inr (mk, cs)"
    and "none_over k (init_machine_limit s) a"
    and "subtract_process_req mk a = Inr (m', c)"
    and "machine_limit_over m'"
  shows "(machine_limit_over m \<longleftrightarrow>
            reserved m > 1 \<or> cpu_count m < - 2 \<or> mem_free m < 0 \<or>
            (\<exists>g\<in>set (gpus m). free g < 0) \<or>
            (\<exists>g\<in>set (gpus m). utilization g > 12 / 10) \<or>
            (\<exists>g\<in>set (gpus m). gpu_reserved g > 1)) \<and>
         get_process_limit s a = Some (Inr cs)"
proof
  show "machine_limit_over m \<longleftrightarrow>
            reserved m > 1 \<or> cpu_count m < - 2 \<or> mem_free m < 0 \<or>
            (\<exists>g\<in>set (gpus m). free g < 0) \<or>
            (\<exists>g\<in>set (gpus m). utilization g > 12 / 10) \<or>
            (\<exists>g\<in>set (gpus m). gpu_reserved g > 1)"
    by (rule machine_limit_over_iff)
  have "get_process_limit s a = process_loop (init_machine_limit s) a []"
    using assms(1) by (auto simp: get_process_limit_def)
  also have "\<dots> = process_loop mk a ([] @ cs)"
    by (rule process_loop_charges [OF assms(2,3)])
  also have "\<dots> = Some (Inr cs)"
    using process_loop_stop [OF assms(4,5)] by simp
  finally show "get_process_limit s a = Some (Inr cs)" .
qed

theorem over_and_stop_witness:
  "charge_n 2 (init_machine_limit docstring_machine) default_args =
     Inr (docstring_state 2, [0, 1]) \<and>
   none_over 2 (init_machine_limit docstring_machine) default_args \<and>
   subtract_process_req (docstring_state 2) default_args = Inr (docstring_state 3, 1) \<and>
   machine_limit_over (docstring_state 3) \<and>
   (\<exists>g\<in>set (gpus (docstring_state 3)). utilization g > 12 / 10) \<and>
   get_process_limit docstring_machine default_args = Some (Inr [0, 1])"
proof -
  have a: "\<not> (gpus docstring_machine = [] \<and> \<not> no_gpu_required default_args)"
    by (simp add: docstring_machine_def)
  have b: "charge_n 2 (init_machine_limit docstring_machine) default_args =
     Inr (docstring_state 2, [0, 1])" by code_simp
  have c: "none_over 2 (init_machine_limit docstring_machine) default_args" by code_simp
  have d: "subtract_process_req (docstring_state 2) default_args = Inr (docstring_state 3, 1)"
    by code_simp
  have e: "machine_limit_over (docstring_state 3)" by code_simp
  have f: "\<exists>g\<in>set (gpus (docstring_state 3)). utilization g > 12 / 10" by code_simp
  from over_and_stop [OF a b c d e, of "docstring_state 3"] b c d e f show ?thesis by blast
qed

subsection \<open>Machines without GPUs, and whole-machine reservation\<close>

text \<open>
  Claim C9. For a snapshot without GPUs and a request that requires a GPU,
  \<^verbatim>\<open>get_process_limit\<close> returns the empty sequence: a result, not an exception.
\<close>

theorem no_gpus_empty:
  assumes "gpus s = []" and "\<not> no_gpu_required a"
  shows "get_process_limit s a = Some (Inr [])"
  using assms by (simp add: get_process_limit_def)

theorem no_gpus_empty_witness:
  "gpus (docstring_machine\<lparr>gpus := []\<rparr>) = [] \<and> \<not> no_gpu_required default_args \<and>
   get_process_limit (docstring_machine\<lparr>gpus := []\<rparr>) default_args = Some (Inr [])"
proof -
  have a: "gpus (docstring_machine\<lparr>gpus := []\<rparr>) = []" by simp
  have b: "\<not> no_gpu_required default_args" by (simp add: default_args_def)
  from no_gpus_empty [OF a b] a b show ?thesis by blast
qed

text \<open>
  Claim C10. With the whole-machine reservation flag set, \<^verbatim>\<open>get_process_limit\<close>
  returns, and what it returns has length at most 1: every charge increments the
  machine's reserved count, and a count above 1 is over capacity.
\<close>

theorem reserve_at_most_one:
  assumes "reserve a"
  shows "\<exists>ys. get_process_limit s a = Some (Inr ys) \<and> length ys \<le> 1"
proof (cases "gpus s = [] \<and> \<not> no_gpu_required a")
  case True
  then show ?thesis by (simp add: get_process_limit_def)
next
  case False
  let ?m0 = "init_machine_limit s"
  have g0: "gpus ?m0 \<noteq> [] \<or> no_gpu_required a" and r0: "reserved ?m0 = 0"
    using False by (auto simp: init_machine_limit_def Let_def)
  from subtract_total [OF g0] assms r0 obtain m1 c1 where
    s1: "subtract_process_req ?m0 a = Inr (m1, c1)" and r1: "reserved m1 = 1"
    and l1: "length (gpus m1) = length (gpus ?m0)" by auto
  have eq: "get_process_limit s a = process_loop ?m0 a []"
    using False by (auto simp: get_process_limit_def)
  show ?thesis
  proof (cases "machine_limit_over m1")
    case True
    from process_loop_stop [OF s1 True] eq show ?thesis by simp
  next
    case nov: False
    have g1: "gpus m1 \<noteq> [] \<or> no_gpu_required a" using g0 l1 by auto
    from subtract_total [OF g1] assms r1 obtain m2 c2 where
      s2: "subtract_process_req m1 a = Inr (m2, c2)" and r2: "reserved m2 = 2" by auto
    have o2: "machine_limit_over m2" using r2 by (simp add: machine_limit_over_def)
    have "process_loop ?m0 a [] = process_loop m1 a [c1]"
      by (subst process_loop.simps) (simp add: s1 nov)
    also have "\<dots> = Some (Inr [c1])" by (rule process_loop_stop [OF s2 o2])
    finally show ?thesis using eq by simp
  qed
qed

theorem reserve_at_most_one_witness:
  "reserve (default_args\<lparr>reserve := True\<rparr>) \<and>
   (\<exists>ys. get_process_limit docstring_machine (default_args\<lparr>reserve := True\<rparr>) = Some (Inr ys) \<and>
         length ys \<le> 1)"
proof -
  have a: "reserve (default_args\<lparr>reserve := True\<rparr>)" by simp
  from reserve_at_most_one [OF a, of docstring_machine] a show ?thesis by blast
qed

subsection \<open>Larger requests\<close>







subsection \<open>The scan ends on the first stable index\<close>




subsection \<open>A larger GPU memory demand: one charge\<close>

















subsection \<open>A larger GPU memory demand: the whole run\<close>




















text \<open>
  The condition on \<^verbatim>\<open>gpu_utilization\<close> cannot be dropped: with a negative one, a
  charge can bring a GPU back under the utilization threshold, and which GPU is charged
  depends on the memory demand.
\<close>

lemma negative_utilization_example:
  "get_process_limit hot_second_machine
     (default_args\<lparr>gpu_utilization := - 1 / 4, gpu_memory_required := 0\<rparr>) = Some (Inr []) \<and>
   get_process_limit hot_second_machine
     (default_args\<lparr>gpu_utilization := - 1 / 4, gpu_memory_required := 3\<rparr>) = Some (Inr [1])"
  by code_simp


section \<open>Properties of the command builder\<close>

lemma kabuki_final_command_unfold:
  "kabuki_final_command machine job_name command a =
     command @
     (if sublist ''--copy-forward'' command then []
      else '' --copy-forward '' @ join '' '' (copy_forward a) @ '' '') @
     (if sublist ''--copy-backwards'' command then []
      else '' --copy-backwards '' @ join '' '' (copy_backwards a) @ '' '') @
     (if sublist ''--job-name'' command then [] else '' --job-name '' @ job_name @ '' '') @
     (if verbose a then '' --verbose '' else []) @
     '' --machine '' @ machine @ '' ''"
  unfolding kabuki_final_command_def Let_def
  by (cases "sublist ''--copy-forward'' command"; cases "sublist ''--copy-backwards'' command";
      cases "sublist ''--job-name'' command"; cases "verbose a";
      simp only: if_True if_False not_True_eq_False not_False_eq_True append_assoc
        append_Nil2 append_Nil)

lemma nested_job_flags:
  "sublist ''--machine'' nested_job" "sublist ''--verbose'' nested_job"
  "\<not> sublist ''--copy-forward'' nested_job" "\<not> sublist ''--copy-backwards'' nested_job"
  "\<not> sublist ''--job-name'' nested_job"
  by (simp_all add: nested_job_def sublist_code)

lemma verbose_args_fields:
  "verbose verbose_args" "copy_forward verbose_args = []" "copy_backwards verbose_args = []"
  by (simp_all add: verbose_args_def default_args_def)

text \<open>
  Claim C6, as the code has it. The text that the builder parses is the raw job text,
  unchanged, followed by what the builder appends: the transfer lists and the job name,
  each only when the name of its flag does not occur in the raw text (as a substring);
  then \<^verbatim>\<open>--verbose\<close> whenever the batch is verbose, and \<^verbatim>\<open>--machine\<close> with the
  machine of the slot always, whether or not the raw text has these two flags.
\<close>

theorem final_command_injection:
  "kabuki_final_command machine job_name command a =
     command @
     (if sublist ''--copy-forward'' command then []
      else '' --copy-forward '' @ join '' '' (copy_forward a) @ '' '') @
     (if sublist ''--copy-backwards'' command then []
      else '' --copy-backwards '' @ join '' '' (copy_backwards a) @ '' '') @
     (if sublist ''--job-name'' command then [] else '' --job-name '' @ job_name @ '' '') @
     (if verbose a then '' --verbose '' else []) @
     '' --machine '' @ machine @ '' ''"
  by (rule kabuki_final_command_unfold)

text \<open>
  The claim as stated fails for the verbosity flag and the machine: a job text that has
  both \<^verbatim>\<open>--machine\<close> and \<^verbatim>\<open>--verbose\<close> gets both appended again.
\<close>

theorem inject_counterexample:
  "sublist ''--machine'' nested_job \<and> sublist ''--verbose'' nested_job \<and>
   kabuki_final_command ''m2'' ''batch.1'' nested_job verbose_args =
     nested_job @
     '' --copy-forward   --copy-backwards   --job-name batch.1  --verbose  --machine m2 ''"
  unfolding kabuki_final_command_unfold
  by (simp only: nested_job_flags verbose_args_fields if_True if_False join.simps
      append.simps append_assoc simp_thms)

section \<open>Properties of the scheduling loop\<close>

subsection \<open>Lines whose marker exists\<close>


lemma dispatch_name:
  "(case (if kabuki_commands a
          then make_kabuki_run_command (shlex_split E) (parse_args E) (basic_run_py E)
                 mac job_name (export_prefix_of a g) command g a
          else (make_basic_run_command (basic_run_py E) mac job_name (export_prefix_of a g) command g a,
                job_name)) of (job_cmd, n) \<Rightarrow> f job_cmd n) =
   f (fst (if kabuki_commands a
          then make_kabuki_run_command (shlex_split E) (parse_args E) (basic_run_py E)
                 mac job_name (export_prefix_of a g) command g a
          else (make_basic_run_command (basic_run_py E) mac job_name (export_prefix_of a g) command g a,
                job_name)))
     (effective_name E a mac g job_name command)"
  by (simp add: effective_name_def split: prod.splits)

lemma dispatch_skip:
  assumes "machine_procs st ! mi ! i = None" and "line_num st < length lines"
    and "path_exists E (ticks st)
           (marker_path (effective_name E a mac g (job_names st ! line_num st)
              (strip (lines ! line_num st))))"
  shows "dispatch E a lines mac g mi i st =
     st\<lparr>job_names := (if kabuki_commands a
                       then (job_names st)[line_num st :=
                              effective_name E a mac g (job_names st ! line_num st)
                                (strip (lines ! line_num st))]
                       else job_names st),
        log := log st @ [Skipping (strip (lines ! line_num st))],
        line_num := line_num st + 1, all_done := False, waiting_only := False\<rparr>"
  using assms
  by (simp add: dispatch_def Let_def dispatch_name)


lemma idle_slot:
  "idle lines names mp st \<Longrightarrow> mi < length mp \<Longrightarrow> i < length (mp ! mi) \<Longrightarrow>
   machine_procs st ! mi ! i = None"
  by (simp add: idle_def list_all_length)

lemma reap_empty: "machine_procs st ! mi ! i = None \<Longrightarrow> reap E lines mi i st = st"
  by (simp add: reap_def)

lemma visit_skips:
  assumes markers: "\<forall>t mac g k. k < length lines \<longrightarrow>
      path_exists E t (marker_path (effective_name E a mac g (names ! k) (strip (lines ! k))))"
    and mi: "mi < length mp" and i: "i < length (mp ! mi)"
  shows "skips lines names mp (Suc 0) (visit_slot E a lines mac g mi i)"
  unfolding skips_def
proof (intro allI impI)
  fix st
  assume idl: "idle lines names mp st"
  have empty: "machine_procs st ! mi ! i = None" by (rule idle_slot [OF idl mi i])
  show "idle lines names mp (visit_slot E a lines mac g mi i st) \<and>
        line_num (visit_slot E a lines mac g mi i st) = min (length lines) (line_num st + Suc 0) \<and>
        all_done (visit_slot E a lines mac g mi i st) =
          (all_done st \<and> (Suc 0 = 0 \<or> length lines \<le> line_num st))"
  proof (cases "line_num st < length lines")
    case True
    have nm: "job_names st ! line_num st = names ! line_num st"
      using idl True by (simp add: idle_def)
    have ex: "path_exists E (ticks st)
           (marker_path (effective_name E a mac g (job_names st ! line_num st)
              (strip (lines ! line_num st))))"
      using markers True by (simp add: nm)
    show ?thesis
      using idl True empty
      by (simp add: visit_slot_def Let_def reap_empty dispatch_skip [OF empty True ex] idle_def)
  next
    case False
    then have "dispatch E a lines mac g mi i st = st" by (simp add: dispatch_def)
    with idl False empty show ?thesis
      by (simp add: visit_slot_def Let_def reap_empty idle_def)
  qed
qed

lemma skips_id: "skips lines names mp 0 (\<lambda>st. st)"
  by (auto simp: skips_def idle_def)

lemma skips_comp:
  assumes "skips lines names mp w1 g1" and "skips lines names mp w2 g2"
  shows "skips lines names mp (w1 + w2) (\<lambda>st. g2 (g1 st))"
  unfolding skips_def
proof (intro allI impI)
  fix st
  assume idl: "idle lines names mp st"
  from assms(1) idl have 1: "idle lines names mp (g1 st)"
    "line_num (g1 st) = min (length lines) (line_num st + w1)"
    "all_done (g1 st) = (all_done st \<and> (w1 = 0 \<or> length lines \<le> line_num st))"
    by (simp_all add: skips_def)
  from assms(2) 1(1) have 2: "idle lines names mp (g2 (g1 st))"
    "line_num (g2 (g1 st)) = min (length lines) (line_num (g1 st) + w2)"
    "all_done (g2 (g1 st)) = (all_done (g1 st) \<and> (w2 = 0 \<or> length lines \<le> line_num (g1 st)))"
    by (simp_all add: skips_def)
  show "idle lines names mp (g2 (g1 st)) \<and>
        line_num (g2 (g1 st)) = min (length lines) (line_num st + (w1 + w2)) \<and>
        all_done (g2 (g1 st)) = (all_done st \<and> (w1 + w2 = 0 \<or> length lines \<le> line_num st))"
    using 1 2 by auto
qed

lemma skips_cong:
  assumes "skips lines names mp w g" and "\<And>st. idle lines names mp st \<Longrightarrow> g' st = g st"
  shows "skips lines names mp w g'"
  using assms by (simp add: skips_def)

lemma skips_fold:
  assumes "\<And>x. x \<in> set xs \<Longrightarrow> skips lines names mp (wt x) (f x)"
  shows "skips lines names mp (sum_list (map wt xs)) (fold f xs)"
  using assms
proof (induction xs rule: rev_induct)
  case Nil
  show ?case using skips_id [of lines names mp] by (simp add: id_def)
next
  case (snoc x xs)
  have a: "skips lines names mp (sum_list (map wt xs)) (fold f xs)"
    by (rule snoc.IH) (simp add: snoc.prems)
  have b: "skips lines names mp (wt x) (f x)" by (rule snoc.prems) simp
  from skips_comp [OF a b] show ?case by (simp add: comp_def)
qed

lemma sum_list_ones: "sum_list (map (\<lambda>i. Suc 0) xs) = length xs"
  by (induction xs) simp_all

lemma machine_skips:
  assumes markers: "\<forall>t mac g k. k < length lines \<longrightarrow>
      path_exists E t (marker_path (effective_name E a mac g (names ! k) (strip (lines ! k))))"
    and mi: "mi < length mp"
  shows "skips lines names mp (min (length (gcs ! mi)) (length (mp ! mi)))
     (\<lambda>st. fold (\<lambda>i st. visit_slot E a lines (machines ! mi) (gcs ! mi ! i) mi i st)
        [0..<min (length (gcs ! mi)) (length (machine_procs st ! mi))] st)"
proof -
  let ?n = "min (length (gcs ! mi)) (length (mp ! mi))"
  have "skips lines names mp (sum_list (map (\<lambda>i. Suc 0) [0..<?n]))
     (fold (\<lambda>i st. visit_slot E a lines (machines ! mi) (gcs ! mi ! i) mi i st) [0..<?n])"
    by (rule skips_fold) (simp add: visit_skips [OF markers mi])
  then have "skips lines names mp ?n
     (fold (\<lambda>i st. visit_slot E a lines (machines ! mi) (gcs ! mi ! i) mi i st) [0..<?n])"
    by (simp add: sum_list_ones)
  then show ?thesis
    by (rule skips_cong) (simp add: idle_def)
qed

lemma pass_skips:
  assumes markers: "\<forall>t mac g k. k < length lines \<longrightarrow>
      path_exists E t (marker_path (effective_name E a mac g (names ! k) (strip (lines ! k))))"
  shows "skips lines names mp (n_slots machines gcs mp) (sched_pass E a lines machines gcs)"
proof -
  let ?M = "min (length machines) (min (length gcs) (length mp))"
  have "skips lines names mp (n_slots machines gcs mp)
     (fold (\<lambda>mi st.
        fold (\<lambda>i st. visit_slot E a lines (machines ! mi) (gcs ! mi ! i) mi i st)
          [0..<min (length (gcs ! mi)) (length (machine_procs st ! mi))] st) [0..<?M])"
    unfolding n_slots_def
    by (rule skips_fold) (simp add: machine_skips [OF markers])
  then show ?thesis
    by (rule skips_cong) (simp add: idle_def sched_pass_def)
qed

lemma idle_flags: "idle lines names mp st \<Longrightarrow> idle lines names mp (st\<lparr>all_done := b, waiting_only := c\<rparr>)"
  by (simp add: idle_def)

lemma sched_loop_idle:
  assumes markers: "\<forall>t mac g k. k < length lines \<longrightarrow>
      path_exists E t (marker_path (effective_name E a mac g (names ! k) (strip (lines ! k))))"
  shows "idle lines names mp st \<Longrightarrow>
     \<exists>st'. sched_loop E a lines machines gcs st = Some st' \<and> idle lines names mp st'"
proof (induction "length lines - line_num st" arbitrary: st rule: less_induct)
  case less
  show ?case
  proof (cases "all_done st")
    case True
    then show ?thesis using less.prems by (subst sched_loop.simps) simp
  next
    case False
    let ?st0 = "st\<lparr>all_done := True, waiting_only := True\<rparr>"
    let ?st1 = "sched_pass E a lines machines gcs ?st0"
    have i0: "idle lines names mp ?st0" by (rule idle_flags [OF less.prems])
    from pass_skips [OF markers, of mp machines gcs] i0 have
      i1: "idle lines names mp ?st1" and
      l1: "line_num ?st1 = min (length lines) (line_num st + n_slots machines gcs mp)" and
      d1: "all_done ?st1 = (n_slots machines gcs mp = 0 \<or> length lines \<le> line_num st)"
      by (simp_all add: skips_def)
    have step: "sched_loop E a lines machines gcs st = sched_loop E a lines machines gcs ?st1"
      using False by (subst sched_loop.simps) simp
    show ?thesis
    proof (cases "all_done ?st1")
      case True
      then have "sched_loop E a lines machines gcs ?st1 = Some ?st1"
        by (subst sched_loop.simps) simp
      with step i1 show ?thesis by simp
    next
      case nd: False
      with d1 l1 have "length lines - line_num ?st1 < length lines - line_num st"
        by auto
      from less.hyps [OF this i1] step show ?thesis by simp
    qed
  qed
qed

lemma idle_init:
  "idle lines (init_job_names filename lines)
     (map (\<lambda>c. replicate (length c) None) gcs) (init_sched filename lines gcs)"
  by (simp add: idle_def init_sched_def init_job_names_def list_all_length Let_def)

lemma two_lines_run: "map_option sched.log (run_schedule all_marked default_args ''jobs.txt'' two_lines [''m1''] [[0]]) =
   Some [Skipping ''echo a'', Skipping ''echo b'']"
  by code_simp

text \<open>
  Claim C7. When an empty slot is about to take the next line and the marker of the
  line's effective job name exists, the loop prints the skip, starts no process and
  leaves the slot empty. So a run in which the marker of every line's effective name
  exists ends, having started no process.
\<close>

theorem marker_skips:
  assumes "\<forall>t mac g k. k < length lines \<longrightarrow>
      path_exists E t
        (marker_path (effective_name E a mac g (init_job_names filename lines ! k)
           (strip (lines ! k))))"
  shows "(\<forall>st mac g mi i.
            machine_procs st ! mi ! i = None \<and> line_num st < length lines \<and>
            path_exists E (ticks st)
              (marker_path (effective_name E a mac g (job_names st ! line_num st)
                 (strip (lines ! line_num st)))) \<longrightarrow>
            log (dispatch E a lines mac g mi i st) =
              log st @ [Skipping (strip (lines ! line_num st))] \<and>
            machine_procs (dispatch E a lines mac g mi i st) = machine_procs st \<and>
            line_num (dispatch E a lines mac g mi i st) = line_num st + 1) \<and>
         (\<exists>st'. run_schedule E a filename lines machines gcs = Some st' \<and>
            filter is_started (log st') = [] \<and>
            list_all (list_all (\<lambda>s. s = None)) (machine_procs st'))"
proof
  show "\<forall>st mac g mi i.
            machine_procs st ! mi ! i = None \<and> line_num st < length lines \<and>
            path_exists E (ticks st)
              (marker_path (effective_name E a mac g (job_names st ! line_num st)
                 (strip (lines ! line_num st)))) \<longrightarrow>
            log (dispatch E a lines mac g mi i st) =
              log st @ [Skipping (strip (lines ! line_num st))] \<and>
            machine_procs (dispatch E a lines mac g mi i st) = machine_procs st \<and>
            line_num (dispatch E a lines mac g mi i st) = line_num st + 1"
    by (simp add: dispatch_skip)
  from sched_loop_idle [OF assms idle_init [of lines filename gcs], of machines gcs]
  show "\<exists>st'. run_schedule E a filename lines machines gcs = Some st' \<and>
            filter is_started (log st') = [] \<and>
            list_all (list_all (\<lambda>s. s = None)) (machine_procs st')"
    by (auto simp: run_schedule_def idle_def)
qed

theorem marker_skips_witness:
  "\<exists>st'. run_schedule all_marked default_args ''jobs.txt'' two_lines [''m1''] [[0]] = Some st' \<and>
         filter is_started (sched.log st') = [] \<and>
         list_all (list_all (\<lambda>s. s = None)) (machine_procs st') \<and>
         sched.log st' = [Skipping ''echo a'', Skipping ''echo b'']"
proof -
  have h: "\<forall>t mac g k. k < length two_lines \<longrightarrow>
      path_exists all_marked t
        (marker_path (effective_name all_marked default_args mac g
           (init_job_names ''jobs.txt'' two_lines ! k) (strip (two_lines ! k))))"
    by (simp add: all_marked_def)
  from marker_skips [OF h, THEN conjunct2, of "[''m1'']" "[[0]]"] two_lines_run
  show ?thesis by auto
qed

subsection \<open>The handler\<close>


lemma signal_procs_world:
  "signal_procs procs w = w\<lparr>signalled := signalled w @ procs_of procs\<rparr>"
  by (induction procs w rule: signal_procs.induct) (simp_all add: send_signal_def)

lemma signal_machines_world:
  "signal_machines mp w = w\<lparr>signalled := signalled w @ slot_procs mp\<rparr>"
  by (induction mp arbitrary: w) (simp_all add: signal_procs_world slot_procs_def)

lemma wait_procs_world:
  "wait_procs exits procs w =
     (if stuck exits (procs_of procs) w then None
      else Some (w\<lparr>running := filter (\<lambda>q. q \<notin> set (procs_of procs)) (running w)\<rparr>))"
proof (induction exits procs w rule: wait_procs.induct)
  case (1 exits w)
  then show ?case by (simp add: stuck_def)
next
  case (2 exits procs w)
  then show ?case by simp
next
  case (3 exits n p procs w)
  show ?case
  proof (cases "p \<in> set (running w) \<and> \<not> exits p")
    case True
    then show ?thesis by (auto simp: wait_proc_def stuck_def)
  next
    case False
    then have w: "wait_proc exits p w = Some (w\<lparr>running := removeAll p (running w)\<rparr>)"
      by (simp add: wait_proc_def)
    have st: "stuck exits (procs_of procs) (w\<lparr>running := removeAll p (running w)\<rparr>)
        = stuck exits (procs_of (Some (n, p) # procs)) w"
      using False by (auto simp: stuck_def)
    have fl: "filter (\<lambda>q. q \<notin> set (procs_of procs)) (removeAll p (running w))
        = filter (\<lambda>q. q \<notin> set (procs_of (Some (n, p) # procs))) (running w)"
      by (induction "running w") (auto simp: removeAll_filter_not_eq intro: filter_cong)
    show ?thesis
      using "3.IH" [OF w] by (simp add: w st fl)
  qed
qed

lemma wait_machines_world:
  "wait_machines exits mp w =
     (if stuck exits (slot_procs mp) w then None
      else Some (w\<lparr>running := filter (\<lambda>q. q \<notin> set (slot_procs mp)) (running w)\<rparr>))"
proof (induction mp arbitrary: w)
  case Nil
  then show ?case by (simp add: slot_procs_def stuck_def)
next
  case (Cons procs mp)
  show ?case
  proof (cases "stuck exits (procs_of procs) w")
    case True
    then show ?thesis by (auto simp: wait_procs_world slot_procs_def stuck_def)
  next
    case False
    let ?w = "w\<lparr>running := filter (\<lambda>q. q \<notin> set (procs_of procs)) (running w)\<rparr>"
    have st: "stuck exits (slot_procs mp) ?w = stuck exits (slot_procs (procs # mp)) w"
      using False by (auto simp: stuck_def slot_procs_def)
    show ?thesis
      using False by (auto simp: wait_procs_world Cons.IH st simp del: stuck_def) (auto simp: slot_procs_def intro: filter_cong)
  qed
qed

text \<open>
  Claim C8. The handler sends \<^verbatim>\<open>SIGINT\<close> to every process in a slot, on every
  machine, and then waits for each of them, without a timeout: it does not end exactly
  when one of them is running and never exits. When it ends it raises the exception it
  caught, and no process of a slot is running any more.
\<close>

theorem drain_complete:
  "(drain_handler exits mp be w = None \<longleftrightarrow>
      (\<exists>p\<in>set (slot_procs mp). p \<in> set (running w) \<and> \<not> exits p)) \<and>
   (\<forall>w' e. drain_handler exits mp be w = Some (w', e) \<longrightarrow>
      e = be \<and> sigint_ignored w' \<and> signalled w' = signalled w @ slot_procs mp \<and>
      (\<forall>p\<in>set (slot_procs mp). p \<notin> set (running w')))"
  by (auto simp: drain_handler_def Let_def signal_machines_world wait_machines_world stuck_def
      split: if_splits)

theorem drain_complete_witness:
  "drain_handler (\<lambda>p. True) two_busy_slots ''KeyboardInterrupt'' three_running =
     Some (drained, ''KeyboardInterrupt'') \<and>
   slot_procs two_busy_slots = [0, 1] \<and> signalled drained = [0, 1] \<and>
   0 \<notin> set (running drained) \<and> 1 \<notin> set (running drained)"
proof -
  have a: "drain_handler (\<lambda>p. True) two_busy_slots ''KeyboardInterrupt'' three_running =
     Some (drained, ''KeyboardInterrupt'')" by code_simp
  have b: "slot_procs two_busy_slots = [0, 1]" by code_simp
  from drain_complete [of "\<lambda>p. True" two_busy_slots "''KeyboardInterrupt''" three_running] a b
  show ?thesis by (auto simp: three_running_def)
qed

end
